theory Spec2Isabelle
  imports Complex_Main "HOL-Library.Code_Target_Nat"
begin

section \<open>Values, characters and strings\<close>

text \<open>
  The scripts work on numpy arrays of 64-bit floats and on Python strings.
  A finite float is modelled by the rational number it denotes, so arithmetic,
  comparison and decimal formatting are exact (no rounding to 53 bits, no overflow).
  A parsed float may also be an infinity or a NaN, which \<open>float()\<close> accepts.
  A character is a code point below 256; a string is a list of characters.
\<close>

datatype pyfloat = Finite rat | PosInf | NegInf | NaN

datatype error =
    FileNotFoundError
  | CardinalityMismatch nat nat
  | OutOfRange int int int
  | ZeroSizeReduction
  | CouldNotConvert string
  | FormatError

text \<open>
  \<open>CardinalityMismatch\<close> is the \<open>ValueError("Mismatch: ...")\<close> of the porosity
  generator (carrying both lengths), \<open>OutOfRange\<close> its
  \<open>ValueError("Cell IDs out of range: ...")\<close> (carrying the minimum, the maximum and
  \<open>total_cells\<close>), \<open>ZeroSizeReduction\<close> the \<open>ValueError\<close> that \<open>np.min\<close> raises on an
  empty array, \<open>CouldNotConvert\<close> the \<open>ValueError\<close> of \<open>float()\<close> on a string that is
  no float, and \<open>FormatError\<close> the \<open>ValueError("No numerical values found ...")\<close> of
  the comparison tool's reader.
\<close>

definition is_digit :: "char \<Rightarrow> bool" where
  "is_digit c = (48 \<le> (of_char c :: nat) \<and> (of_char c :: nat) \<le> 57)"

definition digit_val :: "char \<Rightarrow> nat" where
  "digit_val c = of_char c - 48"

definition digit_char :: "nat \<Rightarrow> char" where
  "digit_char d = char_of (48 + d)"

text \<open>Python's \<open>str.isspace\<close> on the code points below 256.\<close>

definition is_space :: "char \<Rightarrow> bool" where
  "is_space c = (let n = (of_char c :: nat)
                 in (9 \<le> n \<and> n \<le> 13) \<or> (28 \<le> n \<and> n \<le> 32) \<or> n = 133 \<or> n = 160)"

definition strip :: "string \<Rightarrow> string" where
  "strip s = rev (dropWhile is_space (rev (dropWhile is_space s)))"

definition startswith :: "string \<Rightarrow> string \<Rightarrow> bool" where
  "startswith s p = (take (length p) s = p)"

text \<open>\<open>str.split()\<close> without arguments: the maximal runs of non-whitespace.\<close>

fun split_from :: "string \<Rightarrow> string \<Rightarrow> string list" where
  "split_from cur [] = (if cur = [] then [] else [cur])"
| "split_from cur (c # cs) =
     (if is_space c then (if cur = [] then split_from [] cs else cur # split_from [] cs)
      else split_from (cur @ [c]) cs)"

definition split :: "string \<Rightarrow> string list" where
  "split s = split_from [] s"

text \<open>\<open>str(n)\<close> and \<open>int(s)\<close> on decimal digits.\<close>

fun str_nat :: "nat \<Rightarrow> string" where
  "str_nat n = (if n < 10 then [digit_char n] else str_nat (n div 10) @ [digit_char (n mod 10)])"

declare str_nat.simps [simp del]

definition nat_of_digits :: "string \<Rightarrow> nat" where
  "nat_of_digits s = foldl (\<lambda>a c. 10 * a + digit_val c) 0 s"

section \<open>numpy's closeness test and the six-decimal format\<close>

text \<open>
  \<open>np.isclose(a, b, rtol=1e-10)\<close> leaves \<open>atol\<close> at numpy's default \<open>1e-08\<close> and
  tests \<open>absolute(a - b) <= atol + rtol * absolute(b)\<close>.
\<close>

definition atol :: rat where
  "atol = 1 / 10 ^ 8"

definition rtol :: rat where
  "rtol = 1 / 10 ^ 10"

definition isclose :: "rat \<Rightarrow> rat \<Rightarrow> rat \<Rightarrow> bool" where
  "isclose a b rt = (\<bar>a - b\<bar> \<le> atol + rt * \<bar>b\<bar>)"

definition round_half_even :: "rat \<Rightarrow> int" where
  "round_half_even x =
     (let f = \<lfloor>x\<rfloor>; d = x - of_int f
      in if d < 1 / 2 then f else if 1 / 2 < d then f + 1
         else if even f then f else f + 1)"

definition zero_pad :: "nat \<Rightarrow> string \<Rightarrow> string" where
  "zero_pad w s = replicate (w - length s) (CHR ''0'') @ s"

text \<open>\<open>f"{value:.6f}"\<close>: sign, integer part, a dot, six fractional digits, correctly rounded.\<close>

definition format_6f :: "rat \<Rightarrow> string" where
  "format_6f v =
     (let n = nat (round_half_even (\<bar>v\<bar> * 1000000))
      in (if v < 0 then ''-'' else '''') @
         str_nat (n div 1000000) @ ''.'' @ zero_pad 6 (str_nat (n mod 1000000)))"

section \<open>The run-length encoder \<open>compress_array_to_cmg_format\<close>\<close>

text \<open>
  The inner \<open>while\<close> of the encoder: \<open>rest\<close> is \<open>array[i + count:]\<close>, and every
  element is compared with \<open>value = array[i]\<close>, the first element of the run.
\<close>

fun count_run :: "rat \<Rightarrow> rat list \<Rightarrow> nat \<Rightarrow> nat" where
  "count_run v [] count = count"
| "count_run v (x # rest) count =
     (if isclose x v rtol then count_run v rest (count + 1) else count)"

definition cmg_token :: "rat \<Rightarrow> nat \<Rightarrow> string" where
  "cmg_token v count =
     (if isclose v 0 rtol
      then (if count = 1 then ''0'' else str_nat count @ ''*0'')
      else (if count = 1 then format_6f v else str_nat count @ ''*'' @ format_6f v))"

text \<open>The state of the outer loop is \<open>(compressed_lines, current_line)\<close>.\<close>

definition add_token :: "int \<Rightarrow> string list \<times> string \<Rightarrow> string \<Rightarrow> string list \<times> string" where
  "add_token max_line_length st token =
     (case st of (compressed_lines, current_line) \<Rightarrow>
        if current_line \<noteq> [] \<and> max_line_length < int (length (current_line @ '' '' @ token))
        then (compressed_lines @ [current_line], token)
        else if current_line \<noteq> [] then (compressed_lines, current_line @ '' '' @ token)
        else (compressed_lines, token))"

text \<open>The outer \<open>while i < len(array)\<close>: the list argument is \<open>array[i:]\<close>.\<close>

function compress_loop :: "int \<Rightarrow> rat list \<Rightarrow> string list \<times> string \<Rightarrow> string list \<times> string" where
  "compress_loop max_line_length [] st = st"
| "compress_loop max_line_length (v # rest) st =
     compress_loop max_line_length (drop (count_run v rest 1 - 1) rest)
       (add_token max_line_length st (cmg_token v (count_run v rest 1)))"
  by pat_completeness auto
termination
  by (relation "measure (\<lambda>(m, xs, st). length xs)") auto

definition compress_array_to_cmg_format :: "rat list \<Rightarrow> int \<Rightarrow> string list" where
  "compress_array_to_cmg_format array max_line_length =
     (case compress_loop max_line_length array ([], []) of
        (compressed_lines, current_line) \<Rightarrow>
          if current_line \<noteq> [] then compressed_lines @ [current_line] else compressed_lines)"

text \<open>The tokens the encoder emits, in order (one per iteration of the outer loop).\<close>

function emitted_tokens :: "rat list \<Rightarrow> string list" where
  "emitted_tokens [] = []"
| "emitted_tokens (v # rest) =
     cmg_token v (count_run v rest 1) # emitted_tokens (drop (count_run v rest 1 - 1) rest)"
  by pat_completeness auto
termination
  by (relation "measure length") auto



section \<open>The decoders \<open>decompress_cmg_format_to_array\<close> and \<open>read_cmg_format_file\<close>\<close>

text \<open>
  \<open>re.match(r'(\d+)\*([+-]?\d*\.?\d*)', token)\<close>, anchored at the start of the token
  and not at its end. The first group takes all leading digits (with fewer digits the
  next character would be a digit, not the star), and every part of the second group
  may be empty, so the greedy choice never backtracks. The result is the pair of groups.
\<close>

definition re_match_run :: "string \<Rightarrow> (string \<times> string) option" where
  "re_match_run token =
     (let g1 = takeWhile is_digit token; r1 = dropWhile is_digit token
      in if g1 = [] then None
         else (case r1 of
                 [] \<Rightarrow> None
               | c # r2 \<Rightarrow>
                   if c \<noteq> CHR ''*'' then None
                   else
                     let sgn = (case r2 of [] \<Rightarrow> [] | s # t \<Rightarrow>
                                  if s = CHR ''+'' \<or> s = CHR ''-'' then [s] else []);
                         r3 = drop (length sgn) r2;
                         d1 = takeWhile is_digit r3;
                         r4 = dropWhile is_digit r3;
                         dot = (case r4 of [] \<Rightarrow> [] | p # t \<Rightarrow> if p = CHR ''.'' then [p] else []);
                         r5 = drop (length dot) r4;
                         d2 = takeWhile is_digit r5
                     in Some (g1, sgn @ d1 @ dot @ d2)))"

text \<open>
  Python's \<open>float(s)\<close> on a string: surrounding whitespace is stripped; an underscore
  must stand between two digits and is dropped; then an optional sign and either
  \<open>inf\<close>, \<open>infinity\<close> or \<open>nan\<close> in any case, or a decimal number with at least one
  digit in the mantissa and an optional exponent with at least one digit.
  \<open>None\<close> is the \<open>ValueError\<close>.
\<close>

fun underscores_ok :: "char \<Rightarrow> string \<Rightarrow> bool" where
  "underscores_ok prev [] = (prev \<noteq> CHR ''_'')"
| "underscores_ok prev (c # cs) =
     (if c = CHR ''_'' then is_digit prev \<and> underscores_ok c cs
      else (if prev = CHR ''_'' then is_digit c else True) \<and> underscores_ok c cs)"

definition to_lower :: "char \<Rightarrow> char" where
  "to_lower c = (if 65 \<le> (of_char c :: nat) \<and> (of_char c :: nat) \<le> 90
                 then char_of ((of_char c :: nat) + 32) else c)"

definition parse_exponent :: "string \<Rightarrow> int option" where
  "parse_exponent r =
     (case r of
        [] \<Rightarrow> Some 0
      | c # r1 \<Rightarrow>
          if c = CHR ''e'' \<or> c = CHR ''E'' then
            (let neg = (case r1 of [] \<Rightarrow> False | s # t \<Rightarrow> s = CHR ''-'');
                 sgn = (case r1 of [] \<Rightarrow> False | s # t \<Rightarrow> s = CHR ''+'' \<or> s = CHR ''-'');
                 ds = (if sgn then tl r1 else r1)
             in if ds \<noteq> [] \<and> list_all is_digit ds
                then Some (if neg then - int (nat_of_digits ds) else int (nat_of_digits ds))
                else None)
          else None)"

definition parse_decimal :: "string \<Rightarrow> rat option" where
  "parse_decimal body =
     (let ip = takeWhile is_digit body;
          r1 = dropWhile is_digit body;
          dotted = (case r1 of [] \<Rightarrow> False | p # t \<Rightarrow> p = CHR ''.'');
          fp = (if dotted then takeWhile is_digit (tl r1) else []);
          r2 = (if dotted then dropWhile is_digit (tl r1) else r1)
      in if ip = [] \<and> fp = [] then None
         else (case parse_exponent r2 of
                 None \<Rightarrow> None
               | Some e \<Rightarrow>
                   let m = of_nat (nat_of_digits ip) + of_nat (nat_of_digits fp) / 10 ^ length fp
                   in Some (if 0 \<le> e then m * 10 ^ nat e else m / 10 ^ nat (- e))))"

definition py_float :: "string \<Rightarrow> pyfloat option" where
  "py_float s0 =
     (let s = strip s0 in
      if \<not> underscores_ok (CHR 0x00) s then None
      else
        let t = filter (\<lambda>c. c \<noteq> CHR ''_'') s;
            neg = (case t of [] \<Rightarrow> False | c # r \<Rightarrow> c = CHR ''-'');
            sgn = (case t of [] \<Rightarrow> False | c # r \<Rightarrow> c = CHR ''+'' \<or> c = CHR ''-'');
            body = (if sgn then tl t else t);
            low = map to_lower body
        in if low = ''inf'' \<or> low = ''infinity'' then Some (if neg then NegInf else PosInf)
           else if low = ''nan'' then Some NaN
           else (case parse_decimal body of
                   None \<Rightarrow> None
                 | Some q \<Rightarrow> Some (Finite (if neg then - q else q))))"

text \<open>
  One iteration of \<open>for token in tokens\<close>: the values the token appends, or the
  exception it raises. Only the bare-float branch sits inside \<open>try ... except ValueError\<close>.
\<close>

definition decode_token :: "string \<Rightarrow> error + pyfloat list" where
  "decode_token token =
     (case re_match_run token of
        Some (g1, g2) \<Rightarrow>
          (case py_float g2 of
             None \<Rightarrow> Inl (CouldNotConvert g2)
           | Some v \<Rightarrow> Inr (replicate (nat_of_digits g1) v))
      | None \<Rightarrow>
          (case py_float token of
             Some v \<Rightarrow> Inr [v]
           | None \<Rightarrow> Inr []))"

fun decode_tokens :: "string list \<Rightarrow> pyfloat list \<Rightarrow> error + pyfloat list" where
  "decode_tokens [] vals = Inr vals"
| "decode_tokens (token # tokens) vals =
     (case decode_token token of
        Inl e \<Rightarrow> Inl e
      | Inr vs \<Rightarrow> decode_tokens tokens (vals @ vs))"

fun decode_lines :: "string list \<Rightarrow> pyfloat list \<Rightarrow> error + pyfloat list" where
  "decode_lines [] vals = Inr vals"
| "decode_lines (raw # rest) vals =
     (let line = strip raw
      in if line = [] \<or> startswith line ''**'' then decode_lines rest vals
         else (case decode_tokens (split line) vals of
                 Inl e \<Rightarrow> Inl e
               | Inr vals' \<Rightarrow> decode_lines rest vals'))"

text \<open>A file is \<open>None\<close> when it does not exist, and the list of its lines otherwise.\<close>

definition decompress_cmg_format_to_array :: "string list option \<Rightarrow> error + pyfloat list" where
  "decompress_cmg_format_to_array file =
     (case file of
        None \<Rightarrow> Inl FileNotFoundError
      | Some file_lines \<Rightarrow> decode_lines file_lines [])"

definition read_cmg_format_file :: "string list option \<Rightarrow> error + pyfloat list" where
  "read_cmg_format_file file =
     (case file of
        None \<Rightarrow> Inl FileNotFoundError
      | Some file_lines \<Rightarrow>
          (case decode_lines file_lines [] of
             Inl e \<Rightarrow> Inl e
           | Inr vals \<Rightarrow> if vals = [] then Inl FormatError else Inr vals))"

section \<open>The sparse-to-dense scatter \<open>generate_full_porosity\<close>\<close>

text \<open>
  \<open>full_porosity[active_cell_ids - 1] = porosity_values\<close>: the pairs are written in
  input order, so a later pair overwrites an earlier one with the same identifier.
  The identifiers are integers already (the source converts other types first).
\<close>

definition scatter_assign :: "rat list \<Rightarrow> int list \<Rightarrow> rat list \<Rightarrow> rat list" where
  "scatter_assign full ids vals =
     fold (\<lambda>(i, v) arr. arr[nat (i - 1) := v]) (zip ids vals) full"

definition generate_full_porosity ::
    "int list option \<Rightarrow> rat list option \<Rightarrow> int \<Rightarrow> error + rat list" where
  "generate_full_porosity actid_file poro_file total_cells =
     (case actid_file of
        None \<Rightarrow> Inl FileNotFoundError
      | Some active_cell_ids \<Rightarrow>
          (case poro_file of
             None \<Rightarrow> Inl FileNotFoundError
           | Some porosity_values \<Rightarrow>
               if length active_cell_ids \<noteq> length porosity_values
               then Inl (CardinalityMismatch (length active_cell_ids) (length porosity_values))
               else if active_cell_ids = [] then Inl ZeroSizeReduction
               else
                 let min_id = Min (set active_cell_ids); max_id = Max (set active_cell_ids)
                 in if min_id < 1 \<or> total_cells < max_id
                    then Inl (OutOfRange min_id max_id total_cells)
                    else Inr (scatter_assign (replicate (nat total_cells) 0)
                                active_cell_ids porosity_values)))"

section \<open>The comparator \<open>compare_arrays\<close>\<close>

text \<open>
  The dictionary the comparator returns: an error report with both sizes, or the
  comparison with its flags and statistics (and the differing indices when there are any).
\<close>

datatype comparison =
    Failure (identical: bool) (error_text: string) (size1: nat) (size2: nat)
  | Report (identical: bool) (exact_match: bool) (tolerance_match: bool)
      (max_difference: rat) (mean_difference: rat) (different_elements: nat)
      (different_indices: "nat list option")

definition compare_arrays :: "rat list \<Rightarrow> rat list \<Rightarrow> rat \<Rightarrow> string \<Rightarrow> string \<Rightarrow> comparison" where
  "compare_arrays array1 array2 tolerance file1_name file2_name =
     (if length array1 = 0 then Failure False (file1_name @ '' is empty'') 0 (length array2)
      else if length array2 = 0 then Failure False (file2_name @ '' is empty'') (length array1) 0
      else if length array1 \<noteq> length array2
      then Failure False ''Different array sizes'' (length array1) (length array2)
      else if array1 = array2 then Report True True True 0 0 0 None
      else
        let differences = map (\<lambda>(x, y). \<bar>x - y\<bar>) (zip array1 array2);
            max_diff = fold max (tl differences) (hd differences);
            mean_diff = sum_list differences / of_nat (length differences);
            diff_indices = filter (\<lambda>i. tolerance < differences ! i) [0 ..< length differences];
            different = length diff_indices
        in if different = 0 then Report True False True max_diff mean_diff 0 None
           else Report False False False max_diff mean_diff different (Some diff_indices))"

section \<open>Notions used in the statements and proofs\<close>

text \<open>
  The characters of an encoder token; the value of a decimal literal given by its sign,
  integer digits and fraction digits; the condition that the rest of a token does not
  continue the number the pattern has matched; values with at most six decimals; tokens
  joined by single spaces; and the invariant of the line-wrapping loop.
\<close>

definition plain_char :: "char \<Rightarrow> bool" where
  "plain_char c = (is_digit c \<or> c = CHR ''.'' \<or> c = CHR ''+'' \<or> c = CHR ''-'' \<or> c = CHR ''*'')"




fun join_tokens :: "string list \<Rightarrow> string" where
  "join_tokens [] = []"
| "join_tokens [t] = t"
| "join_tokens (t # u # ts) = t @ '' '' @ join_tokens (u # ts)"

definition good_token :: "string \<Rightarrow> bool" where
  "good_token t = (t \<noteq> [] \<and> list_all plain_char t \<and> hd t \<noteq> CHR ''*'')"

definition clean_line :: "string \<Rightarrow> bool" where
  "clean_line l = (l \<noteq> [] \<and> hd l \<noteq> CHR ''*'' \<and> \<not> is_space (hd l) \<and> \<not> is_space (last l))"

definition wrap_inv :: "int \<Rightarrow> string list \<Rightarrow> string list \<times> string \<Rightarrow> bool" where
  "wrap_inv m seen st =
     (case st of (compressed_lines, current_line) \<Rightarrow>
        concat (map split compressed_lines) @ split current_line = seen \<and>
        list_all (\<lambda>l. clean_line l \<and> join_tokens (split l) = l \<and>
                      (int (length l) \<le> m \<or> (split l = [l] \<and> l \<in> set seen))) compressed_lines \<and>
        join_tokens (split current_line) = current_line \<and>
        (current_line = [] \<or> clean_line current_line) \<and>
        (current_line = [] \<or> int (length current_line) \<le> m \<or>
         (split current_line = [current_line] \<and> current_line \<in> set seen)))"

section \<open>Scatter: validation and zero fill\<close>

lemma fold_update_length:
  "length (fold (\<lambda>(i, v) arr. arr[nat (i - 1) := v]) ps (full :: rat list)) = length full"
  by (induction ps arbitrary: full) (auto split: prod.splits)

lemma length_scatter_assign: "length (scatter_assign full ids vals) = length full"
  by (simp add: scatter_assign_def fold_update_length)

lemma fold_update_untouched:
  "\<forall>q \<in> set ps. nat (fst q - 1) \<noteq> p \<Longrightarrow>
   fold (\<lambda>(i, v) arr. arr[nat (i - 1) := v]) ps (full :: rat list) ! p = full ! p"
  by (induction ps arbitrary: full) (auto split: prod.splits)

lemma scatter_assign_untouched:
  assumes "\<forall>i \<in> set ids. nat (i - 1) \<noteq> p"
  shows "scatter_assign full ids vals ! p = full ! p"
proof -
  have "\<forall>q \<in> set (zip ids vals). nat (fst q - 1) \<noteq> p"
    using assms by (auto dest: set_zip_leftD)
  then show ?thesis
    unfolding scatter_assign_def by (rule fold_update_untouched)
qed

lemma scatter_assign_last_write:
  assumes len: "length ids = length vals" and k: "k < length ids"
    and pos: "nat (ids ! k - 1) < length full"
    and later: "\<forall>j. k < j \<and> j < length ids \<longrightarrow> nat (ids ! j - 1) \<noteq> nat (ids ! k - 1)"
  shows "scatter_assign full ids vals ! nat (ids ! k - 1) = vals ! k"
proof -
  let ?f = "\<lambda>(i, v) arr. arr[nat (i - 1) := v]"
  let ?ps = "zip ids vals"
  have kz: "k < length ?ps" using len k by simp
  have nth: "?ps ! k = (ids ! k, vals ! k)"
    using k len by simp
  have split: "?ps = take k ?ps @ (ids ! k, vals ! k) # drop (Suc k) ?ps"
    using id_take_nth_drop [OF kz] nth by (simp only:)
  have after: "\<forall>q \<in> set (drop (Suc k) ?ps). nat (fst q - 1) \<noteq> nat (ids ! k - 1)"
  proof
    fix q assume "q \<in> set (drop (Suc k) ?ps)"
    then obtain j where j: "j < length (drop (Suc k) ?ps)" and q: "q = drop (Suc k) ?ps ! j"
      by (auto simp: in_set_conv_nth)
    have "Suc k + j < length ids" using j len by simp
    moreover have "q = (ids ! (Suc k + j), vals ! (Suc k + j))"
      using q j len by simp
    ultimately show "nat (fst q - 1) \<noteq> nat (ids ! k - 1)"
      using later by simp
  qed
  define mid where "mid = fold ?f (take k ?ps) full"
  have lm: "length mid = length full"
    unfolding mid_def by (rule fold_update_length)
  have "scatter_assign full ids vals = fold ?f (drop (Suc k) ?ps) (mid[nat (ids ! k - 1) := vals ! k])"
    unfolding scatter_assign_def mid_def by (subst split) simp
  then have "scatter_assign full ids vals ! nat (ids ! k - 1) = (mid[nat (ids ! k - 1) := vals ! k]) ! nat (ids ! k - 1)"
    using fold_update_untouched [OF after] by simp
  then show ?thesis using pos lm by simp
qed

lemma id_range_min_max:
  assumes "ids \<noteq> []" "\<forall>i \<in> set ids. 1 \<le> i \<and> i \<le> total_cells"
  shows "\<not> (Min (set ids) < 1 \<or> total_cells < Max (set ids))"
proof -
  have "Min (set ids) \<in> set ids" "Max (set ids) \<in> set ids"
    using assms(1) by (auto intro: Min_in Max_in)
  then show ?thesis using assms(2) by force
qed

text \<open>
  Claim C3 (scatter validation), as the code has it. The length check runs first: with
  lists of different lengths the call fails with \<open>CardinalityMismatch\<close> carrying both
  lengths, whatever the identifiers are. With lists of equal length and at least one
  identifier, a minimum below 1 or a maximum above \<open>total_cells\<close> fails with
  \<open>OutOfRange\<close> carrying the minimum, the maximum and \<open>total_cells\<close>. Either way the
  result is the error alone (\<open>Inl\<close>): no array, partial or not, is returned.
\<close>

theorem scatter_validation:
  "(length ids \<noteq> length vals \<longrightarrow>
      generate_full_porosity (Some ids) (Some vals) total_cells
        = Inl (CardinalityMismatch (length ids) (length vals))) \<and>
   (length ids = length vals \<and> ids \<noteq> [] \<and> (Min (set ids) < 1 \<or> total_cells < Max (set ids)) \<longrightarrow>
      generate_full_porosity (Some ids) (Some vals) total_cells
        = Inl (OutOfRange (Min (set ids)) (Max (set ids)) total_cells))"
  by (simp add: generate_full_porosity_def Let_def)

theorem scatter_validation_witness:
  "length [1, 2 :: int] \<noteq> length [1 :: rat] \<and>
   generate_full_porosity (Some [1, 2]) (Some [1]) 10 = Inl (CardinalityMismatch 2 1) \<and>
   length [11 :: int] = length [1 :: rat] \<and> [11 :: int] \<noteq> [] \<and> (10 :: int) < Max (set [11]) \<and>
   generate_full_porosity (Some [11]) (Some [1]) 10 = Inl (OutOfRange 11 11 10) \<and>
   Min (set [0 :: int]) < 1 \<and>
   generate_full_porosity (Some [0]) (Some [1]) 10 = Inl (OutOfRange 0 0 10)"
  using scatter_validation [of "[1, 2]" "[1]" 10] scatter_validation [of "[11]" "[1]" 10]
    scatter_validation [of "[0]" "[1]" 10]
  by simp

text \<open>
  The claim as worded asks for \<open>OutOfRange\<close> whenever the minimum is below 1. With
  identifiers \<open>[0]\<close> and no values the code reports the length mismatch instead.
\<close>

theorem scatter_validation_counterexample:
  "Min (set [0 :: int]) < 1 \<and>
   generate_full_porosity (Some [0]) (Some []) 10 = Inl (CardinalityMismatch 1 0)"
  by (simp add: generate_full_porosity_def)

text \<open>
  Claim C4 (zero-fill invariant), as the code has it. For lists of equal length with at
  least one identifier, all identifiers in \<open>[1, total_cells]\<close>: the call returns an array
  of length \<open>total_cells\<close>; every position that is \<open>id - 1\<close> for no identifier holds 0;
  and position \<open>ids[k] - 1\<close> holds \<open>values[k]\<close> whenever \<open>ids[k]\<close> does not occur again
  later in \<open>ids\<close> (the last write for an identifier wins).
\<close>

theorem scatter_zero_fill:
  assumes len: "length ids = length vals" and ne: "ids \<noteq> []"
    and range: "\<forall>i \<in> set ids. 1 \<le> i \<and> i \<le> total_cells"
  shows "\<exists>full. generate_full_porosity (Some ids) (Some vals) total_cells = Inr full \<and>
           length full = nat total_cells \<and>
           (\<forall>p < nat total_cells. (\<forall>i \<in> set ids. p \<noteq> nat (i - 1)) \<longrightarrow> full ! p = 0) \<and>
           (\<forall>k < length ids. (\<forall>j. k < j \<and> j < length ids \<longrightarrow> ids ! j \<noteq> ids ! k) \<longrightarrow>
                full ! nat (ids ! k - 1) = vals ! k)"
proof -
  let ?zeros = "replicate (nat total_cells) (0 :: rat)"
  let ?full = "scatter_assign ?zeros ids vals"
  have res: "generate_full_porosity (Some ids) (Some vals) total_cells = Inr ?full"
    using len ne id_range_min_max [OF ne range]
    by (simp add: generate_full_porosity_def Let_def)
  have l: "length ?full = nat total_cells"
    by (simp add: length_scatter_assign)
  have zero: "?full ! p = 0" if "p < nat total_cells" "\<forall>i \<in> set ids. p \<noteq> nat (i - 1)" for p
  proof -
    have "?full ! p = ?zeros ! p"
      using that(2) by (intro scatter_assign_untouched) auto
    then show ?thesis using that(1) by simp
  qed
  have hit: "?full ! nat (ids ! k - 1) = vals ! k"
    if k: "k < length ids" and later: "\<forall>j. k < j \<and> j < length ids \<longrightarrow> ids ! j \<noteq> ids ! k" for k
  proof (rule scatter_assign_last_write [OF len k])
    have "ids ! k \<in> set ids" using k by simp
    then show "nat (ids ! k - 1) < length ?zeros" using range by force
    show "\<forall>j. k < j \<and> j < length ids \<longrightarrow> nat (ids ! j - 1) \<noteq> nat (ids ! k - 1)"
    proof (intro allI impI)
      fix j assume j: "k < j \<and> j < length ids"
      then have "ids ! j \<in> set ids" "ids ! k \<in> set ids" using k by simp_all
      then have "1 \<le> ids ! j" "1 \<le> ids ! k" using range by auto
      moreover have "ids ! j \<noteq> ids ! k" using later j by blast
      ultimately show "nat (ids ! j - 1) \<noteq> nat (ids ! k - 1)" by simp
    qed
  qed
  show ?thesis using res l zero hit by blast
qed

theorem scatter_zero_fill_witness:
  "length [3, 1 :: int] = length [1 / 2, 2 :: rat] \<and> [3, 1 :: int] \<noteq> [] \<and>
   generate_full_porosity (Some [3, 1]) (Some [1 / 2, 2]) 4 = Inr [2, 0, 1 / 2, 0]"
proof -
  have r: "\<forall>i \<in> set [3, 1 :: int]. 1 \<le> i \<and> i \<le> 4" by simp
  have e: "generate_full_porosity (Some [3, 1]) (Some [1 / 2, 2]) 4 = Inr [2, 0, 1 / 2, 0]"
    by code_simp
  from scatter_zero_fill [of "[3, 1]" "[1 / 2, 2]" 4, OF _ _ r] e show ?thesis by simp
qed

text \<open>
  With the identifier 1 given twice, position 0 holds the second value and not the
  first pair's; with no identifiers at all the minimum of the empty array raises.
\<close>

theorem scatter_zero_fill_counterexample:
  "generate_full_porosity (Some [1, 1]) (Some [1, 2]) 1 = Inr [2] \<and>
   [1 :: int, 1] ! 0 = 1 \<and> [1 :: rat, 2] ! 0 = 1 \<and> [2 :: rat] ! nat (1 - 1) \<noteq> 1 \<and>
   generate_full_porosity (Some []) (Some []) 4 = Inl ZeroSizeReduction"
  by code_simp

section \<open>Comparator\<close>

text \<open>
  Claim C9 (comparator length mismatch). For two non-empty arrays of different lengths
  \<open>compare_arrays\<close> returns the error report \<open>'Different array sizes'\<close> with both
  sizes (and \<open>identical\<close> false); it is a returned value, not an exception.
\<close>

theorem compare_arrays_length_mismatch:
  assumes "array1 \<noteq> []" "array2 \<noteq> []" "length array1 \<noteq> length array2"
  shows "compare_arrays array1 array2 tolerance file1_name file2_name
           = Failure False ''Different array sizes'' (length array1) (length array2)"
  using assms by (simp add: compare_arrays_def)

theorem compare_arrays_length_mismatch_witness:
  "[1, 2 :: rat] \<noteq> [] \<and> [1, 2, 3 :: rat] \<noteq> [] \<and> length [1, 2 :: rat] \<noteq> length [1, 2, 3 :: rat] \<and>
   compare_arrays [1, 2] [1, 2, 3] (1 / 10 ^ 10) ''File 1'' ''File 2''
     = Failure False ''Different array sizes'' 2 3"
  using compare_arrays_length_mismatch [of "[1, 2]" "[1, 2, 3]" "1 / 10 ^ 10" "''File 1''" "''File 2''"]
  by simp

section \<open>Encoder: the worked example\<close>

text \<open>
  Claim C8 (compression example). The array \<open>[0, 0, 0, 1.0, 1.0, 2.5]\<close> with line width
  80 gives the tokens \<open>3*0\<close>, \<open>2*1.000000\<close>, \<open>2.500000\<close>, all on one line.
\<close>

theorem compress_example:
  "emitted_tokens [0, 0, 0, 1, 1, 5 / 2] = [''3*0'', ''2*1.000000'', ''2.500000''] \<and>
   compress_array_to_cmg_format [0, 0, 0, 1, 1, 5 / 2] 80 = [''3*0 2*1.000000 2.500000'']"
  by code_simp

section \<open>Decoder: failures\<close>

text \<open>The parse loop itself never raises the empty-result error.\<close>

lemma decode_token_not_format_error: "decode_token token \<noteq> Inl FormatError"
  by (simp add: decode_token_def split: option.splits prod.splits)

lemma decode_tokens_not_format_error: "decode_tokens tokens vals \<noteq> Inl FormatError"
proof (induction tokens arbitrary: vals)
  case Nil
  show ?case by simp
next
  case (Cons token tokens)
  show ?case
  proof (cases "decode_token token")
    case (Inl e)
    then show ?thesis using decode_token_not_format_error [of token] by auto
  next
    case (Inr vs)
    then show ?thesis using Cons.IH by simp
  qed
qed

lemma decode_lines_not_format_error: "decode_lines file_lines vals \<noteq> Inl FormatError"
proof (induction file_lines arbitrary: vals)
  case Nil
  show ?case by simp
next
  case (Cons raw rest)
  show ?case
  proof (cases "strip raw = [] \<or> startswith (strip raw) ''**''")
    case True
    then show ?thesis using Cons.IH by (simp add: Let_def)
  next
    case False
    show ?thesis
    proof (cases "decode_tokens (split (strip raw)) vals")
      case (Inl e)
      then show ?thesis
        using False decode_tokens_not_format_error [of "split (strip raw)" vals]
        by (auto simp: Let_def)
    next
      case (Inr vals')
      then show ?thesis using False Cons.IH by (simp add: Let_def)
    qed
  qed
qed

text \<open>
  Claim C6 (empty-result failure), as the code has it. The comparison tool's reader
  \<open>read_cmg_format_file\<close> fails with \<open>FormatError\<close> exactly when the parse of the
  document completes with no value, and returns the parsed sequence whenever the parse
  completes with at least one value. \<open>decompress_cmg_format_to_array\<close> has no such
  check: it returns what the parse yields and never fails with \<open>FormatError\<close>.
\<close>

theorem empty_result_failure:
  "(read_cmg_format_file (Some file_lines) = Inl FormatError
      \<longleftrightarrow> decode_lines file_lines [] = Inr []) \<and>
   (decode_lines file_lines [] = Inr vals \<and> vals \<noteq> []
      \<longrightarrow> read_cmg_format_file (Some file_lines) = Inr vals) \<and>
   decompress_cmg_format_to_array (Some file_lines) = decode_lines file_lines [] \<and>
   decompress_cmg_format_to_array (Some file_lines) \<noteq> Inl FormatError"
  using decode_lines_not_format_error [of file_lines "[]"]
  by (auto simp: read_cmg_format_file_def decompress_cmg_format_to_array_def split: sum.splits)

theorem empty_result_failure_witness:
  "read_cmg_format_file (Some [''**header'', '''', ''abc'']) = Inl FormatError \<and>
   decode_lines [''**header'', '''', ''abc''] [] = Inr [] \<and>
   decode_lines [''**header'', ''2*1.5 abc 7''] [] = Inr [Finite (3 / 2), Finite (3 / 2), Finite 7] \<and>
   read_cmg_format_file (Some [''**header'', ''2*1.5 abc 7'']) = Inr [Finite (3 / 2), Finite (3 / 2), Finite 7]"
proof -
  have a: "decode_lines [''**header'', '''', ''abc''] [] = Inr []" by code_simp
  have b: "decode_lines [''**header'', ''2*1.5 abc 7''] [] = Inr [Finite (3 / 2), Finite (3 / 2), Finite 7]"
    by code_simp
  show ?thesis
    using empty_result_failure [of "[''**header'', '''', ''abc'']" "[]"]
      empty_result_failure [of "[''**header'', ''2*1.5 abc 7'']" "[Finite (3 / 2), Finite (3 / 2), Finite 7]"]
      a b
    by simp
qed

text \<open>
  On a file that holds the header only, \<open>decompress_cmg_format_to_array\<close> returns the
  empty array instead of failing.
\<close>

theorem empty_result_failure_counterexample:
  "decompress_cmg_format_to_array (Some [''**FULL_POROSITY_ALL'']) = Inr []"
  by code_simp

text \<open>A token that matches neither form appends nothing, and decoding goes on.\<close>

lemma unparsable_token_skipped:
  "re_match_run token = None \<Longrightarrow> py_float token = None \<Longrightarrow>
   decode_tokens (token # tokens) vals = decode_tokens tokens vals"
  by (simp add: decode_token_def)

text \<open>
  Claim C5 (per-token robustness). A token that matches neither form is skipped, as in
  the last conjunct. But the token \<open>3*abc\<close> matches the run pattern with an empty value
  group, \<open>float('')\<close> raises outside the \<open>try\<close>, and both decoders abort on it although
  the document holds the values 1.5 and 2.5.
\<close>

theorem malformed_run_token_aborts:
  "decode_token ''3*abc'' = Inl (CouldNotConvert '''') \<and>
   decompress_cmg_format_to_array (Some [''1.5 3*abc 2.5'']) = Inl (CouldNotConvert '''') \<and>
   read_cmg_format_file (Some [''1.5 3*abc 2.5'']) = Inl (CouldNotConvert '''') \<and>
   decompress_cmg_format_to_array (Some [''1.5 abc 2.5'']) = Inr [Finite (3 / 2), Finite (5 / 2)]"
  by code_simp

section \<open>Strings of digits, the float parser and the run pattern\<close>

lemma is_digit_digit_char: "d < 10 \<Longrightarrow> is_digit (digit_char d)"
  by (simp add: is_digit_def digit_char_def)


lemma str_nat_digits: "list_all is_digit (str_nat n)"
proof (induction n rule: str_nat.induct)
  case (1 n)
  show ?case
  proof (cases "n < 10")
    case True
    then show ?thesis by (subst str_nat.simps) (simp add: is_digit_digit_char)
  next
    case False
    then show ?thesis using 1 by (subst str_nat.simps) (simp add: is_digit_digit_char)
  qed
qed

lemma str_nat_nonempty: "str_nat n \<noteq> []"
  by (subst str_nat.simps) simp




lemma digit_not_special:
  assumes "is_digit c"
  shows "\<not> is_space c" "c \<noteq> CHR ''_''" "c \<noteq> CHR ''.''" "c \<noteq> CHR ''*''" "c \<noteq> CHR ''+''"
    "c \<noteq> CHR ''-''" "c \<noteq> CHR ''e''" "c \<noteq> CHR ''E''" "c \<noteq> CHR ''i''" "c \<noteq> CHR ''n''"
    "to_lower c = c" "c \<noteq> CHR '' ''"
  using assms by (auto simp: is_digit_def is_space_def to_lower_def Let_def)

lemma plain_char_props:
  assumes "plain_char c"
  shows "\<not> is_space c" "c \<noteq> CHR ''_''"
  using assms by (auto simp: plain_char_def is_digit_def is_space_def Let_def)








section \<open>Encoder: line wrapping\<close>

lemma split_from_no_space:
  "\<forall>c \<in> set t. \<not> is_space c \<Longrightarrow> cur @ t \<noteq> [] \<Longrightarrow> split_from cur t = [cur @ t]"
  by (induction t arbitrary: cur) auto

lemma split_from_space:
  "is_space c \<Longrightarrow> split_from cur (s @ c # t) = split_from cur s @ split_from [] t"
  by (induction s arbitrary: cur) auto

lemma split_good_token: "good_token t \<Longrightarrow> split t = [t]"
  unfolding split_def good_token_def
  using split_from_no_space [of t "[]"] by (auto simp: list_all_iff dest: plain_char_props)

lemma split_append_token: "good_token t \<Longrightarrow> split (a @ '' '' @ t) = split a @ [t]"
proof -
  assume g: "good_token t"
  have "is_space (CHR '' '')" by (simp add: is_space_def)
  then have "split_from [] (a @ CHR '' '' # t) = split_from [] a @ split_from [] t"
    by (rule split_from_space)
  then show ?thesis using split_good_token [OF g] by (simp add: split_def)
qed

lemma split_empty: "split [] = []"
  by (simp add: split_def)

lemma join_tokens_snoc: "ts \<noteq> [] \<Longrightarrow> join_tokens (ts @ [t]) = join_tokens ts @ '' '' @ t"
  by (induction ts rule: join_tokens.induct) auto

lemma split_nonempty_of_join: "join_tokens (split l) = l \<Longrightarrow> l \<noteq> [] \<Longrightarrow> split l \<noteq> []"
  by auto

lemma good_token_clean:
  assumes "good_token t"
  shows "clean_line t"
proof -
  have ne: "t \<noteq> []" and star: "hd t \<noteq> CHR ''*''" and all: "\<forall>c \<in> set t. plain_char c"
    using assms by (simp_all add: good_token_def list_all_iff)
  have "hd t \<in> set t" "last t \<in> set t" using ne by simp_all
  then have "plain_char (hd t)" "plain_char (last t)" using all by blast+
  then have "\<not> is_space (hd t)" "\<not> is_space (last t)"
    using plain_char_props(1) by blast+
  then show ?thesis using ne star by (simp add: clean_line_def)
qed

lemma clean_line_append:
  assumes "clean_line a" "clean_line t"
  shows "clean_line (a @ '' '' @ t)"
proof -
  have a: "a \<noteq> []" "hd a \<noteq> CHR ''*''" "\<not> is_space (hd a)"
    using assms(1) by (simp_all add: clean_line_def)
  have t: "t \<noteq> []" "\<not> is_space (last t)"
    using assms(2) by (simp_all add: clean_line_def)
  have "hd (a @ '' '' @ t) = hd a" using a(1) by simp
  moreover have "last (a @ '' '' @ t) = last t" using t(1) by simp
  ultimately show ?thesis
    unfolding clean_line_def using a t by (simp only: append_is_Nil_conv simp_thms)
qed

lemma add_token_inv:
  assumes inv: "wrap_inv m seen st" and g: "good_token t"
  shows "wrap_inv m (seen @ [t]) (add_token m st t)"
proof -
  obtain ls cur where st: "st = (ls, cur)" by (cases st)
  have a: "concat (map split ls) @ split cur = seen"
    and b: "list_all (\<lambda>l. clean_line l \<and> join_tokens (split l) = l \<and>
                      (int (length l) \<le> m \<or> (split l = [l] \<and> l \<in> set seen))) ls"
    and j: "join_tokens (split cur) = cur"
    and k: "cur = [] \<or> clean_line cur"
    and c: "cur = [] \<or> int (length cur) \<le> m \<or> (split cur = [cur] \<and> cur \<in> set seen)"
    using inv by (simp_all add: wrap_inv_def st)
  have b': "list_all (\<lambda>l. clean_line l \<and> join_tokens (split l) = l \<and>
                      (int (length l) \<le> m \<or> (split l = [l] \<and> l \<in> set (seen @ [t])))) ls"
    using b by (auto simp: list_all_iff)
  have st1: "split t = [t]" by (rule split_good_token [OF g])
  have tne: "t \<noteq> []" using g by (simp add: good_token_def)
  have tc: "clean_line t" by (rule good_token_clean [OF g])
  show ?thesis
  proof (cases "cur = []")
    case True
    then have "add_token m st t = (ls, t)" by (simp add: add_token_def st)
    moreover have "wrap_inv m (seen @ [t]) (ls, t)"
      using a b' st1 True tc by (simp add: wrap_inv_def split_empty)
    ultimately show ?thesis by simp
  next
    case False
    show ?thesis
    proof (cases "m < int (length (cur @ '' '' @ t))")
      case True
      then have "add_token m st t = (ls @ [cur], t)" using False by (simp add: add_token_def st)
      moreover have "wrap_inv m (seen @ [t]) (ls @ [cur], t)"
        using a b' st1 False j c k tc by (auto simp: wrap_inv_def)
      ultimately show ?thesis by simp
    next
      case le: False
      then have "add_token m st t = (ls, cur @ '' '' @ t)" using False by (simp add: add_token_def st)
      moreover have "wrap_inv m (seen @ [t]) (ls, cur @ '' '' @ t)"
      proof -
        have s: "split (cur @ '' '' @ t) = split cur @ [t]" by (rule split_append_token [OF g])
        have sn: "split cur \<noteq> []" using j False by auto
        have "join_tokens (split cur @ [t]) = cur @ '' '' @ t"
          using join_tokens_snoc [OF sn, of t] j by simp
        moreover have "clean_line (cur @ '' '' @ t)"
          using k False tc clean_line_append [of cur t] by simp
        ultimately show ?thesis using a b' s le by (simp add: wrap_inv_def)
      qed
      ultimately show ?thesis by simp
    qed
  qed
qed

lemma fold_add_token_inv:
  "wrap_inv m seen st \<Longrightarrow> list_all good_token toks \<Longrightarrow>
   wrap_inv m (seen @ toks) (fold (\<lambda>t s. add_token m s t) toks st)"
proof (induction toks arbitrary: seen st)
  case Nil
  then show ?case by simp
next
  case (Cons t toks)
  have "wrap_inv m (seen @ [t]) (add_token m st t)"
    using Cons.prems by (intro add_token_inv) simp_all
  then have "wrap_inv m ((seen @ [t]) @ toks) (fold (\<lambda>t s. add_token m s t) toks (add_token m st t))"
    using Cons.prems by (intro Cons.IH) simp_all
  then show ?case by simp
qed

lemma compress_loop_fold:
  "compress_loop m array st = fold (\<lambda>t s. add_token m s t) (emitted_tokens array) st"
  by (induction m array st rule: compress_loop.induct) simp_all

lemma zero_pad_plain: "list_all is_digit s \<Longrightarrow> list_all is_digit (zero_pad w s)"
  by (auto simp: zero_pad_def list_all_iff is_digit_def)

lemma digits_plain: "list_all is_digit s \<Longrightarrow> list_all plain_char s"
  by (simp add: list_all_iff plain_char_def)

lemma hd_str_nat: "is_digit (hd (str_nat n))"
  using str_nat_digits [of n] str_nat_nonempty [of n]
  by (cases "str_nat n") simp_all

lemma format_6f_good: "good_token (format_6f v)"
proof -
  let ?n = "nat (round_half_even (\<bar>v\<bar> * 1000000))"
  let ?d1 = "str_nat (?n div 1000000)"
  let ?d2 = "zero_pad 6 (str_nat (?n mod 1000000))"
  have p1: "list_all plain_char ?d1" by (intro digits_plain str_nat_digits)
  have p2: "list_all plain_char ?d2" by (intro digits_plain zero_pad_plain str_nat_digits)
  have h: "hd ?d1 \<noteq> CHR ''*''" using hd_str_nat [of "?n div 1000000"] by (auto simp: is_digit_def)
  have ne: "?d1 \<noteq> []" by (rule str_nat_nonempty)
  show ?thesis
    unfolding good_token_def format_6f_def Let_def using p1 p2 h ne
    by (auto simp: plain_char_def)
qed

lemma cmg_token_good: "good_token (cmg_token v count)"
proof -
  have p: "list_all plain_char (str_nat count)" by (intro digits_plain str_nat_digits)
  have h: "hd (str_nat count) \<noteq> CHR ''*''" using hd_str_nat [of count] by (auto simp: is_digit_def)
  have ne: "str_nat count \<noteq> []" by (rule str_nat_nonempty)
  have z: "good_token ''0''" by (simp add: good_token_def plain_char_def is_digit_def)
  have f: "list_all plain_char (format_6f v)" "format_6f v \<noteq> []"
    using format_6f_good [of v] by (simp_all add: good_token_def)
  have "good_token (str_nat count @ ''*0'')"
    unfolding good_token_def using p h ne by (auto simp: plain_char_def is_digit_def)
  moreover have "good_token (str_nat count @ ''*'' @ format_6f v)"
    unfolding good_token_def using p h ne f by (auto simp: plain_char_def)
  ultimately show ?thesis using z format_6f_good [of v] by (simp add: cmg_token_def)
qed

lemma emitted_tokens_good: "list_all good_token (emitted_tokens array)"
  by (induction array rule: emitted_tokens.induct) (simp_all add: cmg_token_good)

lemma compress_inv:
  "wrap_inv m (emitted_tokens array) (compress_loop m array ([], []))"
proof -
  have "wrap_inv m [] ([], [])" by (simp add: wrap_inv_def split_empty)
  from fold_add_token_inv [OF this emitted_tokens_good, of array]
  show ?thesis by (simp add: compress_loop_fold)
qed

text \<open>
  Claim C7 (line wrapping). Every line the encoder returns is non-empty, is its own
  tokens joined by single spaces, and either has at most \<open>max_line_length\<close> characters
  or consists of one emitted token that alone is longer than \<open>max_line_length\<close>. Splitting the
  lines at whitespace and concatenating gives the emitted tokens in order, so no token
  is split across lines.
\<close>

theorem line_wrapping:
  "(\<forall>l \<in> set (compress_array_to_cmg_format array max_line_length).
      l \<noteq> [] \<and> join_tokens (split l) = l \<and>
      (int (length l) \<le> max_line_length \<or>
       (split l = [l] \<and> l \<in> set (emitted_tokens array) \<and> max_line_length < int (length l)))) \<and>
   concat (map split (compress_array_to_cmg_format array max_line_length)) = emitted_tokens array"
proof -
  let ?m = max_line_length and ?toks = "emitted_tokens array"
  let ?P = "\<lambda>l. l \<noteq> [] \<and> join_tokens (split l) = l \<and>
      (int (length l) \<le> ?m \<or> (split l = [l] \<and> l \<in> set ?toks \<and> ?m < int (length l)))"
  obtain ls cur where st: "compress_loop ?m array ([], []) = (ls, cur)"
    by (cases "compress_loop ?m array ([], [])")
  have inv: "wrap_inv ?m ?toks (ls, cur)"
    using compress_inv [of ?m array] st by simp
  have a: "concat (map split ls) @ split cur = ?toks"
    and b: "\<forall>l \<in> set ls. clean_line l \<and> join_tokens (split l) = l \<and>
              (int (length l) \<le> ?m \<or> (split l = [l] \<and> l \<in> set ?toks))"
    and j: "join_tokens (split cur) = cur"
    and c: "cur = [] \<or> int (length cur) \<le> ?m \<or> (split cur = [cur] \<and> cur \<in> set ?toks)"
    using inv by (simp_all add: wrap_inv_def list_all_iff)
  have res: "compress_array_to_cmg_format array ?m = (if cur \<noteq> [] then ls @ [cur] else ls)"
    by (simp add: compress_array_to_cmg_format_def st)
  have pl: "?P l" if "l \<in> set ls" for l
  proof -
    have "clean_line l" "join_tokens (split l) = l"
      "int (length l) \<le> ?m \<or> (split l = [l] \<and> l \<in> set ?toks)"
      using b that by blast+
    then show ?thesis by (cases "int (length l) \<le> ?m") (simp_all add: clean_line_def)
  qed
  have pc: "?P cur" if "cur \<noteq> []"
    using that j c by (cases "int (length cur) \<le> ?m") simp_all
  show ?thesis
  proof (cases "cur = []")
    case True
    then have "compress_array_to_cmg_format array ?m = ls" using res by simp
    moreover have "concat (map split ls) = ?toks" using a True by (simp add: split_empty)
    ultimately show ?thesis using pl by simp
  next
    case False
    then have r: "compress_array_to_cmg_format array ?m = ls @ [cur]" using res by simp
    have "\<forall>l \<in> set (ls @ [cur]). ?P l" using pl pc [OF False] by simp
    moreover have "concat (map split (ls @ [cur])) = ?toks" using a by simp
    ultimately show ?thesis unfolding r by blast
  qed
qed

theorem line_wrapping_witness:
  "compress_array_to_cmg_format [0, 0, 0, 1, 1, 5 / 2] 12 = [''3*0'', ''2*1.000000'', ''2.500000''] \<and>
   compress_array_to_cmg_format [0, 0, 0, 1, 1, 5 / 2] 14 = [''3*0 2*1.000000'', ''2.500000''] \<and>
   compress_array_to_cmg_format [0, 0, 0, 1, 1, 5 / 2] 8 = [''3*0'', ''2*1.000000'', ''2.500000''] \<and>
   int (length ''2.500000'') \<le> 8 \<and> (8 :: int) < int (length ''2*1.000000'') \<and>
   concat (map split (compress_array_to_cmg_format [0, 0, 0, 1, 1, 5 / 2] 14))
     = [''3*0'', ''2*1.000000'', ''2.500000'']"
proof -
  have t: "emitted_tokens [0, 0, 0, 1, 1, 5 / 2] = [''3*0'', ''2*1.000000'', ''2.500000'']"
    by code_simp
  have a: "compress_array_to_cmg_format [0, 0, 0, 1, 1, 5 / 2] 12 = [''3*0'', ''2*1.000000'', ''2.500000'']"
    by code_simp
  have b: "compress_array_to_cmg_format [0, 0, 0, 1, 1, 5 / 2] 14 = [''3*0 2*1.000000'', ''2.500000'']"
    by code_simp
  have c: "compress_array_to_cmg_format [0, 0, 0, 1, 1, 5 / 2] 8 = [''3*0'', ''2*1.000000'', ''2.500000'']"
    by code_simp
  show ?thesis
    using line_wrapping [of "[0, 0, 0, 1, 1, 5 / 2]" 14] t a b c by simp
qed

section \<open>Decoder: prefix matching\<close>



section \<open>Round trip through the encoder and the decoder\<close>































section \<open>Encoder: when a run is extended\<close>






end
